theory Spec2Isabelle
  imports Main
begin

section \<open>Python values, exceptions and dictionaries\<close>

text \<open>
  The query layer of \<^verbatim>\<open>ticketpy/query.py\<close> never inspects a parameter value except
  for the test \<^verbatim>\<open>v is not None\<close> and the \<^verbatim>\<open>str()\<close> coercion of
  \<^verbatim>\<open>by_location\<close>. A value is \<^verbatim>\<open>None\<close>, a bool, an (unbounded) int, a float or a
  string. The repository does no float arithmetic; a float is kept abstract (type
  parameter \<open>'f\<close>) and only Python's own \<^verbatim>\<open>repr\<close> of it is ever needed.
\<close>

datatype 'f pyval = PNone | PBool bool | PInt int | PFloat 'f | PStr string

text \<open>
  Exceptions as values. \<open>TypeError\<close>: an argument bound twice or a required argument
  missing; \<open>KeyError\<close>: a dictionary read or delete of an absent key;
  \<open>AttributeError\<close>: a method the class does not have; \<open>ClientError\<close>: whatever the
  API client raises (opaque to this layer, propagated unchanged).
\<close>

datatype error = TypeError | KeyError | AttributeError | ClientError string

text \<open>
  A keyword dictionary. A key bound to \<open>PNone\<close> is present (\<^verbatim>\<open>k in kwargs\<close> holds);
  an absent key is \<open>None\<close> of the option type.
\<close>

type_synonym 'f kwargs = "string \<rightharpoonup> 'f pyval"

definition contains :: "'f kwargs \<Rightarrow> string \<Rightarrow> bool" where
  "contains d k = (d k \<noteq> None)"

definition getitem :: "'f kwargs \<Rightarrow> string \<Rightarrow> error + 'f pyval" where
  "getitem d k = (case d k of None \<Rightarrow> Inl KeyError | Some v \<Rightarrow> Inr v)"

definition setitem :: "'f kwargs \<Rightarrow> string \<Rightarrow> 'f pyval \<Rightarrow> 'f kwargs" where
  "setitem d k v = d(k \<mapsto> v)"

definition delitem :: "'f kwargs \<Rightarrow> string \<Rightarrow> error + 'f kwargs" where
  "delitem d k = (if d k = None then Inl KeyError else Inr (d(k := None)))"

section \<open>The parameter normalizer: \<^verbatim>\<open>BaseQuery._search_params\<close>\<close>

text \<open>
  \<^verbatim>\<open>attr_map\<close> is imported from \<^verbatim>\<open>ticketpy.model\<close>, which is not part of the sources
  at hand; it is a parameter of the model. A Python dict iterates its items in insertion
  order and has no duplicate keys: the table is an association list, and theorems that
  depend on it say \<open>distinct (map fst attr_map)\<close>.

  The loop of lines 62 to 65:
  \<^verbatim>\<open>
    for k, v in attr_map.items():
        if k in kwargs and k != v:
            kwargs[v] = kwargs[k]
            del kwargs[k]
  \<close>
\<close>

type_synonym attr_map = "(string \<times> string) list"

fun rename_items :: "attr_map \<Rightarrow> 'f kwargs \<Rightarrow> error + 'f kwargs" where
  "rename_items [] kwargs = Inr kwargs"
| "rename_items ((k, v) # items) kwargs =
     (if contains kwargs k \<and> k \<noteq> v then
        (case getitem kwargs k of
           Inl e \<Rightarrow> Inl e
         | Inr x \<Rightarrow>
             (case delitem (setitem kwargs v x) k of
                Inl e \<Rightarrow> Inl e
              | Inr kwargs' \<Rightarrow> rename_items items kwargs'))
      else rename_items items kwargs)"

text \<open>Line 66: \<^verbatim>\<open>{k: v for (k, v) in kwargs.items() if v is not None}\<close>.\<close>

definition drop_none :: "'f kwargs \<Rightarrow> 'f kwargs" where
  "drop_none kwargs =
     (\<lambda>k. case kwargs k of
            None \<Rightarrow> None
          | Some v \<Rightarrow> if v \<noteq> PNone then Some v else None)"

definition search_params :: "attr_map \<Rightarrow> 'f kwargs \<Rightarrow> error + 'f kwargs" where
  "search_params attr_map kwargs =
     (case rename_items attr_map kwargs of
        Inl e \<Rightarrow> Inl e
      | Inr kwargs' \<Rightarrow> Inr (drop_none kwargs'))"

text \<open>
  Vocabulary for the table. An entry renames when its two sides differ; its left side is
  then a semantic key and its right side a wire key.
\<close>

definition renaming :: "attr_map \<Rightarrow> attr_map" where
  "renaming attr_map = filter (\<lambda>(k, v). k \<noteq> v) attr_map"

definition semantic_keys :: "attr_map \<Rightarrow> string set" where
  "semantic_keys attr_map = fst ` set (renaming attr_map)"

definition wire_keys :: "attr_map \<Rightarrow> string set" where
  "wire_keys attr_map = snd ` set (renaming attr_map)"

text \<open>
  A table is chain free when no wire key of a renaming entry is again the semantic key of
  a renaming entry, so that a renamed value is never renamed a second time.
\<close>

definition chain_free :: "attr_map \<Rightarrow> bool" where
  "chain_free attr_map = (semantic_keys attr_map \<inter> wire_keys attr_map = {})"

text \<open>The loop without its error plumbing, for the proofs.\<close>

fun renamed :: "attr_map \<Rightarrow> 'f kwargs \<Rightarrow> 'f kwargs" where
  "renamed [] kwargs = kwargs"
| "renamed ((k, v) # items) kwargs =
     renamed items
       (if kwargs k \<noteq> None \<and> k \<noteq> v then (kwargs(v := kwargs k))(k := None) else kwargs)"

section \<open>Calls with keyword arguments\<close>

text \<open>
  Every method below with a \<^verbatim>\<open>**kwargs\<close> parameter is modelled as a function of the
  keyword dictionary \<open>kw\<close> of the call: all arguments of the call, keyed by parameter
  name (an argument passed by position is keyed by the name of the parameter it
  fills). \<open>arg\<close> reads a named parameter with its default, \<open>rest\<close> is what
  \<^verbatim>\<open>**kwargs\<close> captures: the keywords that are no named parameter. A keyword \<^verbatim>\<open>self\<close>
  in a call of a bound method is a second value for \<^verbatim>\<open>self\<close>: a \<open>TypeError\<close>.
\<close>

definition arg :: "'f kwargs \<Rightarrow> string \<Rightarrow> 'f pyval \<Rightarrow> 'f pyval" where
  "arg kw name dflt = (case kw name of Some v \<Rightarrow> v | None \<Rightarrow> dflt)"

definition rest :: "string list \<Rightarrow> 'f kwargs \<Rightarrow> 'f kwargs" where
  "rest names kw = (\<lambda>k. if k \<in> set names then None else kw k)"

text \<open>
  The argument list of a call \<^verbatim>\<open>f(a1, ..., n1=v1, ..., **kwargs)\<close>: the explicit
  arguments, each under the name of the parameter it fills, merged with the entries of
  \<^verbatim>\<open>kwargs\<close>. A name given both ways is a \<open>TypeError\<close> (multiple values for the
  argument).
\<close>

definition call_args :: "(string \<times> 'f pyval) list \<Rightarrow> 'f kwargs \<Rightarrow> error + 'f kwargs" where
  "call_args explicit kwargs =
     (if \<exists>n \<in> set (map fst explicit). kwargs n \<noteq> None then Inl TypeError
      else Inr (kwargs ++ map_of explicit))"

text \<open>\<^verbatim>\<open>name=name\<close> for each of the names, a parameter that defaults to \<^verbatim>\<open>None\<close>.\<close>

definition pass :: "'f kwargs \<Rightarrow> string list \<Rightarrow> (string \<times> 'f pyval) list" where
  "pass kw names = map (\<lambda>n. (n, arg kw n PNone)) names"

section \<open>Python's \<^verbatim>\<open>str\<close>\<close>

fun str_nat :: "nat \<Rightarrow> string" where
  "str_nat n =
     (if n < 10 then [''0123456789'' ! n]
      else str_nat (n div 10) @ [''0123456789'' ! (n mod 10)])"

definition str_int :: "int \<Rightarrow> string" where
  "str_int i = (if i < 0 then CHR ''-'' # str_nat (nat (- i)) else str_nat (nat i))"

text \<open>
  \<^verbatim>\<open>str(x)\<close>. The text of a float is Python's shortest round-trip \<^verbatim>\<open>repr\<close>, a
  built-in that is a parameter here (\<open>float_repr\<close>).
\<close>

fun py_str :: "('f \<Rightarrow> string) \<Rightarrow> 'f pyval \<Rightarrow> string" where
  "py_str float_repr PNone = ''None''"
| "py_str float_repr (PBool b) = (if b then ''True'' else ''False'')"
| "py_str float_repr (PInt i) = str_int i"
| "py_str float_repr (PFloat x) = float_repr x"
| "py_str float_repr (PStr s) = s"

section \<open>The API client and the query classes\<close>

text \<open>
  \<^verbatim>\<open>ticketpy.client.ApiClient\<close> is a collaborator outside the sources at hand. Its two
  entry points take the resource path and the parameters (or the identifier), act on
  the outside world \<open>'w\<close> and return a paged result \<open>'p\<close> (or a decoded JSON object
  \<open>'j\<close>) or raise.
\<close>

record ('f, 'w, 'p, 'j) api_client =
  api_search :: "string \<Rightarrow> 'f kwargs \<Rightarrow> 'w \<Rightarrow> (error + 'p) \<times> 'w"
  api_get_id :: "string \<Rightarrow> 'f pyval \<Rightarrow> 'w \<Rightarrow> (error + 'j) \<times> 'w"

datatype model_class = Venue | Event | Attraction | Classification | Genre | Subgenre | Segment

datatype query =
  AttractionQuery | ClassificationQuery | SegmentQuery | GenreQuery | SubGenreQuery
  | EventQuery | VenueQuery

text \<open>The class attributes \<^verbatim>\<open>resource\<close> and \<^verbatim>\<open>model\<close> of each query class.\<close>

fun resource :: "query \<Rightarrow> string" where
  "resource AttractionQuery = ''attractions''"
| "resource ClassificationQuery = ''classifications''"
| "resource SegmentQuery = ''classifications/segments''"
| "resource GenreQuery = ''classifications/genres''"
| "resource SubGenreQuery = ''classifications/subgenres''"
| "resource EventQuery = ''events''"
| "resource VenueQuery = ''venues''"

fun model :: "query \<Rightarrow> model_class" where
  "model AttractionQuery = Attraction"
| "model ClassificationQuery = Classification"
| "model SegmentQuery = Segment"
| "model GenreQuery = Genre"
| "model SubGenreQuery = Subgenre"
| "model EventQuery = Event"
| "model VenueQuery = Venue"

subsection \<open>\<^verbatim>\<open>BaseQuery\<close>\<close>

text \<open>\<^verbatim>\<open>__get\<close> (lines 17 to 19): \<^verbatim>\<open>self.api_client._search(self.resource, **kwargs)\<close>.\<close>

definition BaseQuery_get ::
  "('f, 'w, 'p, 'j) api_client \<Rightarrow> query \<Rightarrow> 'f kwargs \<Rightarrow> 'w \<Rightarrow> (error + 'p) \<times> 'w" where
  "BaseQuery_get api q kwargs w =
     (if kwargs ''self'' \<noteq> None then (Inl TypeError, w)
      else api_search api (resource q) kwargs w)"

text \<open>
  \<^verbatim>\<open>_get\<close>, lines 40 to 49: \<^verbatim>\<open>search_args = kwargs\<close>, then
  \<^verbatim>\<open>search_args.update({'keyword': keyword, 'id': entity_id, ...})\<close>.
\<close>

definition get_parameters :: "string list" where
  "get_parameters =
     [''keyword'', ''entity_id'', ''sort'', ''include_test'', ''page'', ''size'', ''locale'']"

definition search_args :: "'f kwargs \<Rightarrow> 'f kwargs" where
  "search_args kw =
     rest get_parameters kw ++
     [''keyword'' \<mapsto> arg kw ''keyword'' PNone,
      ''id'' \<mapsto> arg kw ''entity_id'' PNone,
      ''sort'' \<mapsto> arg kw ''sort'' PNone,
      ''include_test'' \<mapsto> arg kw ''include_test'' PNone,
      ''page'' \<mapsto> arg kw ''page'' PNone,
      ''size'' \<mapsto> arg kw ''size'' PNone,
      ''locale'' \<mapsto> arg kw ''locale'' PNone]"

text \<open>
  \<^verbatim>\<open>_get\<close>, lines 50 and 51: \<^verbatim>\<open>params = self._search_params(**search_args)\<close> and
  \<^verbatim>\<open>return self.__get(**params)\<close>.
\<close>

definition get ::
  "('f, 'w, 'p, 'j) api_client \<Rightarrow> attr_map \<Rightarrow> query \<Rightarrow> 'f kwargs \<Rightarrow> 'w \<Rightarrow> (error + 'p) \<times> 'w"
  where
  "get api attr_map q kw w =
     (if kw ''self'' \<noteq> None then (Inl TypeError, w)
      else case search_params attr_map (search_args kw) of
             Inl e \<Rightarrow> (Inl e, w)
           | Inr params \<Rightarrow> BaseQuery_get api q params w)"

text \<open>
  \<^verbatim>\<open>by_id\<close> (lines 53 to 56). \<^verbatim>\<open>from_json\<close> of the model classes lives in
  \<^verbatim>\<open>ticketpy.model\<close>, outside the sources at hand: a parameter.
\<close>

definition by_id ::
  "('f, 'w, 'p, 'j) api_client \<Rightarrow> (model_class \<Rightarrow> 'j \<Rightarrow> error + 'o) \<Rightarrow> query \<Rightarrow> 'f pyval \<Rightarrow> 'w
     \<Rightarrow> (error + 'o) \<times> 'w" where
  "by_id api from_json q entity_id w =
     (case api_get_id api (resource q) entity_id w of
        (Inl e, w') \<Rightarrow> (Inl e, w')
      | (Inr resp, w') \<Rightarrow> (from_json (model q) resp, w'))"

subsection \<open>The \<^verbatim>\<open>find\<close> methods\<close>

text \<open>The named parameters of each \<^verbatim>\<open>find\<close>, in the order of its signature.\<close>

fun parameters :: "query \<Rightarrow> string list" where
  "parameters AttractionQuery =
     [''sort'', ''keyword'', ''attraction_id'', ''source'', ''include_test'', ''page'', ''size'',
      ''locale'']"
| "parameters ClassificationQuery =
     [''sort'', ''keyword'', ''classification_id'', ''source'', ''include_test'', ''page'',
      ''size'', ''locale'']"
| "parameters EventQuery =
     [''sort'', ''latlong'', ''radius'', ''unit'', ''start_date_time'', ''end_date_time'',
      ''onsale_start_date_time'', ''onsale_end_date_time'', ''country_code'', ''state_code'',
      ''venue_id'', ''attraction_id'', ''segment_id'', ''segment_name'',
      ''classification_name'', ''classification_id'', ''market_id'', ''promoter_id'',
      ''dma_id'', ''include_tba'', ''include_tbd'', ''client_visibility'', ''keyword'',
      ''event_id'', ''source'', ''include_test'', ''page'', ''size'', ''locale'']"
| "parameters VenueQuery =
     [''keyword'', ''venue_id'', ''sort'', ''state_code'', ''country_code'', ''source'',
      ''include_test'', ''page'', ''size'', ''locale'']"
| "parameters _ = []"

text \<open>
  \<^verbatim>\<open>AttractionQuery.find\<close> (lines 81 to 97):
  \<^verbatim>\<open>self._get(keyword, attraction_id, sort, include_test, page, size, locale,
  source=source, **kwargs)\<close>.
\<close>

definition AttractionQuery_find ::
  "('f, 'w, 'p, 'j) api_client \<Rightarrow> attr_map \<Rightarrow> 'f kwargs \<Rightarrow> 'w \<Rightarrow> (error + 'p) \<times> 'w" where
  "AttractionQuery_find api attr_map kw w =
     (if kw ''self'' \<noteq> None then (Inl TypeError, w)
      else case call_args
             [(''keyword'', arg kw ''keyword'' PNone),
              (''entity_id'', arg kw ''attraction_id'' PNone),
              (''sort'', arg kw ''sort'' PNone),
              (''include_test'', arg kw ''include_test'' PNone),
              (''page'', arg kw ''page'' PNone),
              (''size'', arg kw ''size'' PNone),
              (''locale'', arg kw ''locale'' PNone),
              (''source'', arg kw ''source'' PNone)]
             (rest (parameters AttractionQuery) kw) of
          Inl e \<Rightarrow> (Inl e, w)
        | Inr kw' \<Rightarrow> get api attr_map AttractionQuery kw' w)"

text \<open>\<^verbatim>\<open>ClassificationQuery.find\<close> (lines 108 to 126).\<close>

definition ClassificationQuery_find ::
  "('f, 'w, 'p, 'j) api_client \<Rightarrow> attr_map \<Rightarrow> 'f kwargs \<Rightarrow> 'w \<Rightarrow> (error + 'p) \<times> 'w" where
  "ClassificationQuery_find api attr_map kw w =
     (if kw ''self'' \<noteq> None then (Inl TypeError, w)
      else case call_args
             [(''keyword'', arg kw ''keyword'' PNone),
              (''entity_id'', arg kw ''classification_id'' PNone),
              (''sort'', arg kw ''sort'' PNone),
              (''include_test'', arg kw ''include_test'' PNone),
              (''page'', arg kw ''page'' PNone),
              (''size'', arg kw ''size'' PNone),
              (''locale'', arg kw ''locale'' PNone),
              (''source'', arg kw ''source'' PNone)]
             (rest (parameters ClassificationQuery) kw) of
          Inl e \<Rightarrow> (Inl e, w)
        | Inr kw' \<Rightarrow> get api attr_map ClassificationQuery kw' w)"

text \<open>
  \<^verbatim>\<open>EventQuery.find\<close> (lines 161 to 227); \<^verbatim>\<open>sort\<close> defaults to
  \<^verbatim>\<open>'date,asc'\<close>. Seven arguments by position, then the filters by keyword in the
  order of lines 214 to 227.
\<close>

definition EventQuery_find ::
  "('f, 'w, 'p, 'j) api_client \<Rightarrow> attr_map \<Rightarrow> 'f kwargs \<Rightarrow> 'w \<Rightarrow> (error + 'p) \<times> 'w" where
  "EventQuery_find api attr_map kw w =
     (if kw ''self'' \<noteq> None then (Inl TypeError, w)
      else case call_args
             ([(''keyword'', arg kw ''keyword'' PNone),
               (''entity_id'', arg kw ''event_id'' PNone),
               (''sort'', arg kw ''sort'' (PStr ''date,asc'')),
               (''include_test'', arg kw ''include_test'' PNone),
               (''page'', arg kw ''page'' PNone),
               (''size'', arg kw ''size'' PNone),
               (''locale'', arg kw ''locale'' PNone)] @
              pass kw
               [''latlong'', ''radius'', ''unit'', ''start_date_time'', ''end_date_time'',
                ''onsale_start_date_time'', ''onsale_end_date_time'', ''country_code'',
                ''state_code'', ''venue_id'', ''attraction_id'', ''segment_id'',
                ''segment_name'', ''classification_name'', ''classification_id'',
                ''market_id'', ''promoter_id'', ''dma_id'', ''include_tba'', ''include_tbd'',
                ''source'', ''client_visibility''])
             (rest (parameters EventQuery) kw) of
          Inl e \<Rightarrow> (Inl e, w)
        | Inr kw' \<Rightarrow> get api attr_map EventQuery kw' w)"

text \<open>\<^verbatim>\<open>VenueQuery.find\<close> (lines 255 to 277).\<close>

definition VenueQuery_find ::
  "('f, 'w, 'p, 'j) api_client \<Rightarrow> attr_map \<Rightarrow> 'f kwargs \<Rightarrow> 'w \<Rightarrow> (error + 'p) \<times> 'w" where
  "VenueQuery_find api attr_map kw w =
     (if kw ''self'' \<noteq> None then (Inl TypeError, w)
      else case call_args
             [(''keyword'', arg kw ''keyword'' PNone),
              (''entity_id'', arg kw ''venue_id'' PNone),
              (''sort'', arg kw ''sort'' PNone),
              (''include_test'', arg kw ''include_test'' PNone),
              (''page'', arg kw ''page'' PNone),
              (''size'', arg kw ''size'' PNone),
              (''locale'', arg kw ''locale'' PNone),
              (''state_code'', arg kw ''state_code'' PNone),
              (''country_code'', arg kw ''country_code'' PNone),
              (''source'', arg kw ''source'' PNone)]
             (rest (parameters VenueQuery) kw) of
          Inl e \<Rightarrow> (Inl e, w)
        | Inr kw' \<Rightarrow> get api attr_map VenueQuery kw' w)"

text \<open>
  \<^verbatim>\<open>q.find(...)\<close> on an instance of class \<open>q\<close>. \<^verbatim>\<open>SegmentQuery\<close>, \<^verbatim>\<open>GenreQuery\<close> and
  \<^verbatim>\<open>SubGenreQuery\<close> (lines 129 to 150) define only \<^verbatim>\<open>__init__\<close>, and \<^verbatim>\<open>BaseQuery\<close>
  has no \<^verbatim>\<open>find\<close>: the attribute lookup raises.
\<close>

fun find_method ::
  "('f, 'w, 'p, 'j) api_client \<Rightarrow> attr_map \<Rightarrow> query \<Rightarrow> 'f kwargs \<Rightarrow> 'w \<Rightarrow> (error + 'p) \<times> 'w"
  where
  "find_method api attr_map AttractionQuery kw w = AttractionQuery_find api attr_map kw w"
| "find_method api attr_map ClassificationQuery kw w = ClassificationQuery_find api attr_map kw w"
| "find_method api attr_map EventQuery kw w = EventQuery_find api attr_map kw w"
| "find_method api attr_map VenueQuery kw w = VenueQuery_find api attr_map kw w"
| "find_method api attr_map SegmentQuery kw w = (Inl AttributeError, w)"
| "find_method api attr_map GenreQuery kw w = (Inl AttributeError, w)"
| "find_method api attr_map SubGenreQuery kw w = (Inl AttributeError, w)"

text \<open>
  \<^verbatim>\<open>EventQuery.by_location\<close> (lines 229 to 244). \<^verbatim>\<open>latitude\<close> and \<^verbatim>\<open>longitude\<close>
  have no default: a call without them is a \<open>TypeError\<close>.
\<close>

definition by_location ::
  "('f \<Rightarrow> string) \<Rightarrow> ('f, 'w, 'p, 'j) api_client \<Rightarrow> attr_map \<Rightarrow> 'f kwargs \<Rightarrow> 'w
     \<Rightarrow> (error + 'p) \<times> 'w" where
  "by_location float_repr api attr_map kw w =
     (if kw ''self'' \<noteq> None then (Inl TypeError, w)
      else case (kw ''latitude'', kw ''longitude'') of
        (Some latitude, Some longitude) \<Rightarrow>
          (let latlong = py_str float_repr latitude @ '','' @ py_str float_repr longitude
           in case call_args
                [(''latlong'', PStr latlong),
                 (''radius'', PStr (py_str float_repr (arg kw ''radius'' (PStr ''10'')))),
                 (''unit'', arg kw ''unit'' (PStr ''miles'')),
                 (''sort'', arg kw ''sort'' (PStr ''relevance,desc''))]
                (rest [''latitude'', ''longitude'', ''radius'', ''unit'', ''sort''] kw) of
             Inl e \<Rightarrow> (Inl e, w)
           | Inr kw' \<Rightarrow> find_method api attr_map EventQuery kw' w)
      | _ \<Rightarrow> (Inl TypeError, w))"

text \<open>
  For each class with a \<^verbatim>\<open>find\<close>: the parameter of \<^verbatim>\<open>find\<close> that is passed on
  as \<^verbatim>\<open>entity_id\<close>, and the default of its \<^verbatim>\<open>sort\<close> parameter.
\<close>

fun id_parameter :: "query \<Rightarrow> string" where
  "id_parameter AttractionQuery = ''attraction_id''"
| "id_parameter ClassificationQuery = ''classification_id''"
| "id_parameter EventQuery = ''event_id''"
| "id_parameter VenueQuery = ''venue_id''"
| "id_parameter _ = ''entity_id''"

fun sort_default :: "query \<Rightarrow> 'f pyval" where
  "sort_default EventQuery = PStr ''date,asc''"
| "sort_default _ = PNone"

definition has_find :: "query \<Rightarrow> bool" where
  "has_find q = (q \<in> {AttractionQuery, ClassificationQuery, EventQuery, VenueQuery})"

text \<open>A client that records the request it is given, for trying the model out.\<close>

datatype 'f request = Search string "'f kwargs" | Get_id string "'f pyval"

definition recording_client :: "('f, 'f request list, unit, string) api_client" where
  "recording_client =
     \<lparr>api_search = (\<lambda>r params w. (Inr (), w @ [Search r params])),
      api_get_id = (\<lambda>r i w. (Inr (''{}''), w @ [Get_id r i]))\<rparr>"

section \<open>The normalizer never raises\<close>

lemma rename_items_renamed: "rename_items attr_map kwargs = Inr (renamed attr_map kwargs)"
proof (induction attr_map arbitrary: kwargs)
  case Nil
  show ?case by simp
next
  case (Cons e items)
  obtain k v where e: "e = (k, v)" by (cases e)
  show ?case
  proof (cases "kwargs k \<noteq> None \<and> k \<noteq> v")
    case True
    then obtain x where x: "kwargs k = Some x" by auto
    from True x have "rename_items (e # items) kwargs =
        rename_items items ((kwargs(v \<mapsto> x))(k := None))"
      by (simp add: e contains_def getitem_def setitem_def delitem_def)
    also have "\<dots> = Inr (renamed items ((kwargs(v \<mapsto> x))(k := None)))"
      by (rule Cons.IH)
    finally show ?thesis using True x by (simp add: e)
  next
    case False
    then have "rename_items (e # items) kwargs = rename_items items kwargs"
      by (auto simp: e contains_def)
    with False show ?thesis by (auto simp: e Cons.IH)
  qed
qed

lemma search_params_eq: "search_params attr_map kwargs = Inr (drop_none (renamed attr_map kwargs))"
  by (simp add: search_params_def rename_items_renamed)

section \<open>How the loop moves values\<close>

lemma renamed_append: "renamed (xs @ ys) kwargs = renamed ys (renamed xs kwargs)"
  by (induction xs arbitrary: kwargs) auto

lemma wire_keys_Cons: "wire_keys ((a, b) # T) = (if a \<noteq> b then insert b (wire_keys T) else wire_keys T)"
  by (simp add: wire_keys_def renaming_def)

lemma semantic_keys_Cons: "semantic_keys ((a, b) # T) = (if a \<noteq> b then insert a (semantic_keys T) else semantic_keys T)"
  by (simp add: semantic_keys_def renaming_def)

lemma renaming_Cons: "renaming ((a, b) # T) = (if a \<noteq> b then (a, b) # renaming T else renaming T)"
  by (simp add: renaming_def)

lemma absent_stays: "kwargs k = None \<Longrightarrow> k \<notin> wire_keys T \<Longrightarrow> renamed T kwargs k = None"
proof (induction T arbitrary: kwargs)
  case Nil
  then show ?case by simp
next
  case (Cons e T)
  obtain a b where e: "e = (a, b)" by (cases e)
  from Cons.prems have nk: "k \<notin> wire_keys T" and ab: "a \<noteq> b \<Longrightarrow> b \<noteq> k"
    by (auto simp: e wire_keys_Cons split: if_splits)
  show ?case
    using Cons.prems(1) nk ab by (auto simp: e intro!: Cons.IH)
qed

lemma frame:
  "k \<notin> semantic_keys T \<Longrightarrow>
   (\<forall>(j, v) \<in> set (renaming T). v = k \<longrightarrow> kwargs j = None \<and> j \<notin> wire_keys T) \<Longrightarrow>
   renamed T kwargs k = kwargs k"
proof (induction T arbitrary: kwargs)
  case Nil
  then show ?case by simp
next
  case (Cons e T)
  obtain a b where e: "e = (a, b)" by (cases e)
  show ?case
  proof (cases "kwargs a \<noteq> None \<and> a \<noteq> b")
    case True
    let ?kw = "(kwargs(b := kwargs a))(a := None)"
    from Cons.prems(1) True have ka: "k \<noteq> a" and ks: "k \<notin> semantic_keys T"
      by (auto simp: e semantic_keys_Cons)
    from Cons.prems(2) True have kb: "k \<noteq> b"
      by (auto simp: e renaming_Cons)
    have "\<forall>(j, v) \<in> set (renaming T). v = k \<longrightarrow> ?kw j = None \<and> j \<notin> wire_keys T"
      using Cons.prems(2) True by (auto simp: e renaming_Cons wire_keys_Cons)
    from Cons.IH [OF ks this] have "renamed T ?kw k = ?kw k" .
    with True ka kb show ?thesis by (simp add: e)
  next
    case False
    from Cons.prems(1) have ks: "k \<notin> semantic_keys T"
      by (auto simp: e semantic_keys_Cons split: if_splits)
    have "\<forall>(j, v) \<in> set (renaming T). v = k \<longrightarrow> kwargs j = None \<and> j \<notin> wire_keys T"
      using Cons.prems(2) by (auto simp: e renaming_Cons wire_keys_Cons split: if_splits)
    from Cons.IH [OF ks this] False show ?thesis by (auto simp: e)
  qed
qed

lemma semantic_deleted:
  "k \<in> semantic_keys T \<Longrightarrow> k \<notin> wire_keys T \<Longrightarrow> renamed T kwargs k = None"
proof (induction T arbitrary: kwargs)
  case Nil
  then show ?case by (simp add: semantic_keys_def renaming_def)
next
  case (Cons e T)
  obtain a b where e: "e = (a, b)" by (cases e)
  from Cons.prems(2) have nk: "k \<notin> wire_keys T" and ab: "a \<noteq> b \<Longrightarrow> b \<noteq> k"
    by (auto simp: e wire_keys_Cons split: if_splits)
  show ?case
  proof (cases "a = k \<and> a \<noteq> b")
    case True
    then show ?thesis using nk ab by (auto simp: e intro!: absent_stays)
  next
    case False
    with Cons.prems(1) have "k \<in> semantic_keys T"
      by (auto simp: e semantic_keys_Cons split: if_splits)
    from Cons.IH [OF this nk] show ?thesis by (simp add: e)
  qed
qed

lemma semantic_keys_mono: "set xs \<subseteq> set T \<Longrightarrow> semantic_keys xs \<subseteq> semantic_keys T"
  by (auto simp: semantic_keys_def renaming_def)

lemma wire_keys_mono: "set xs \<subseteq> set T \<Longrightarrow> wire_keys xs \<subseteq> wire_keys T"
  by (auto simp: wire_keys_def renaming_def)

lemma semantic_keysI: "(k, v) \<in> set T \<Longrightarrow> k \<noteq> v \<Longrightarrow> k \<in> semantic_keys T"
  by (force simp: semantic_keys_def renaming_def)

lemma wire_keysI: "(k, v) \<in> set T \<Longrightarrow> k \<noteq> v \<Longrightarrow> v \<in> wire_keys T"
  by (force simp: wire_keys_def renaming_def)

lemma in_renaming: "(k, v) \<in> set (renaming T) \<longleftrightarrow> (k, v) \<in> set T \<and> k \<noteq> v"
  by (auto simp: renaming_def)

lemma chain_freeD: "chain_free T \<Longrightarrow> k \<in> semantic_keys T \<Longrightarrow> k \<notin> wire_keys T"
  by (auto simp: chain_free_def)

lemma chain_freeD2: "chain_free T \<Longrightarrow> k \<in> wire_keys T \<Longrightarrow> k \<notin> semantic_keys T"
  by (auto simp: chain_free_def)

lemma last_wins:
  assumes T: "T = xs @ (K, W) # ys" and dist: "distinct (map fst T)" and cf: "chain_free T"
    and KW: "K \<noteq> W" and PK: "kwargs K = Some v"
    and later: "\<forall>(J, W') \<in> set ys. W' = W \<and> J \<noteq> W \<longrightarrow> kwargs J = None"
  shows "renamed T kwargs W = Some v" and "renamed T kwargs K = None"
proof -
  have Ksem: "K \<in> semantic_keys T" and Wwire: "W \<in> wire_keys T"
    using T KW by (auto intro: semantic_keysI wire_keysI)
  from cf Ksem have Knw: "K \<notin> wire_keys T" by (rule chain_freeD)
  from cf Wwire have Wns: "W \<notin> semantic_keys T" by (rule chain_freeD2)
  show "renamed T kwargs K = None"
    using Ksem Knw by (rule semantic_deleted)
  let ?kw1 = "renamed xs kwargs"
  let ?kw2 = "(?kw1(W := ?kw1 K))(K := None)"
  have sub_xs: "set xs \<subseteq> set T" and sub_ys: "set ys \<subseteq> set T" using T by auto
  have Kxs: "K \<notin> fst ` set xs" using dist T by auto
  then have Knsx: "K \<notin> semantic_keys xs" by (auto simp: semantic_keys_def renaming_def)
  have Knwx: "K \<notin> wire_keys xs" using Knw wire_keys_mono [OF sub_xs] by auto
  have "\<forall>(j, w) \<in> set (renaming xs). w = K \<longrightarrow> kwargs j = None \<and> j \<notin> wire_keys xs"
    using Knwx by (auto simp: in_renaming dest: wire_keysI)
  with Knsx have kw1K: "?kw1 K = kwargs K" by (rule frame)
  have step: "renamed T kwargs = renamed ys ?kw2"
    using kw1K PK KW by (simp add: T renamed_append)
  have Wys: "W \<notin> semantic_keys ys" using Wns semantic_keys_mono [OF sub_ys] by auto
  have aux: "?kw2 j = None \<and> j \<notin> wire_keys ys" if j: "(j, W) \<in> set ys" and jW: "j \<noteq> W" for j
  proof -
    from j sub_ys jW have jsem: "j \<in> semantic_keys T" by (auto intro: semantic_keysI)
    with cf have jnw: "j \<notin> wire_keys T" by (rule chain_freeD)
    from later j jW have "kwargs j = None" by auto
    moreover from jnw wire_keys_mono [OF sub_xs] have "j \<notin> wire_keys xs" by auto
    ultimately have "?kw1 j = None" by (rule absent_stays)
    moreover from jnw wire_keys_mono [OF sub_ys] have "j \<notin> wire_keys ys" by auto
    ultimately show ?thesis using jW by simp
  qed
  have "\<forall>(j, w) \<in> set (renaming ys). w = W \<longrightarrow> ?kw2 j = None \<and> j \<notin> wire_keys ys"
    using aux by (auto simp: in_renaming)
  from frame [OF Wys this] have "renamed ys ?kw2 W = ?kw2 W" .
  with step kw1K PK KW show "renamed T kwargs W = Some v" by simp
qed

lemma renamed_id: "\<forall>k \<in> semantic_keys T. kwargs k = None \<Longrightarrow> renamed T kwargs = kwargs"
proof (induction T arbitrary: kwargs)
  case Nil
  show ?case by simp
next
  case (Cons e T)
  obtain a b where e: "e = (a, b)" by (cases e)
  from Cons.prems have "\<not> (kwargs a \<noteq> None \<and> a \<noteq> b)" and "\<forall>k \<in> semantic_keys T. kwargs k = None"
    by (auto simp: e semantic_keys_Cons split: if_splits)
  then show ?case by (auto simp: e Cons.IH)
qed

lemma drop_none_id: "\<forall>k. kwargs k \<noteq> Some PNone \<Longrightarrow> drop_none kwargs = kwargs"
  by (auto simp: drop_none_def fun_eq_iff split: option.splits)

lemma drop_none_no_none: "drop_none kwargs k \<noteq> Some PNone"
  by (simp add: drop_none_def split: option.splits)

lemma drop_none_Some: "v \<noteq> PNone \<Longrightarrow> kwargs k = Some v \<Longrightarrow> drop_none kwargs k = Some v"
  by (simp add: drop_none_def)

lemma drop_none_None: "kwargs k = None \<Longrightarrow> drop_none kwargs k = None"
  by (simp add: drop_none_def)

section \<open>Claims about the normalizer\<close>

text \<open>
  Claim C2 (amended). For every parameter mapping \<open>P\<close> and every table, normalization
  returns (never raises) a mapping with no key bound to \<^verbatim>\<open>None\<close>. Every key of \<open>P\<close> whose
  value is not \<^verbatim>\<open>None\<close> (the falsy values \<^verbatim>\<open>0\<close>, \<^verbatim>\<open>""\<close> and \<^verbatim>\<open>False\<close> included) is kept
  with its value when it is not itself renamed and no key that the table renames onto
  it is present in \<open>P\<close> or is itself a wire key.
\<close>

theorem search_params_no_none_keeps_falsy:
  "\<exists>R. search_params T P = Inr R \<and> (\<forall>k. R k \<noteq> Some PNone) \<and>
     (\<forall>k v. P k = Some v \<and> v \<noteq> PNone \<and> k \<notin> semantic_keys T \<and>
        (\<forall>(j, w) \<in> set (renaming T). w = k \<longrightarrow> P j = None \<and> j \<notin> wire_keys T)
        \<longrightarrow> R k = Some v)"
proof (intro exI conjI allI impI)
  show "search_params T P = Inr (drop_none (renamed T P))" by (rule search_params_eq)
  show "drop_none (renamed T P) k \<noteq> Some PNone" for k by (rule drop_none_no_none)
  fix k v
  assume h: "P k = Some v \<and> v \<noteq> PNone \<and> k \<notin> semantic_keys T \<and>
        (\<forall>(j, w) \<in> set (renaming T). w = k \<longrightarrow> P j = None \<and> j \<notin> wire_keys T)"
  then have "renamed T P k = P k" by (intro frame) auto
  with h show "drop_none (renamed T P) k = Some v" by (simp add: drop_none_Some)
qed

text \<open>
  At \<^verbatim>\<open>_search_params(size=0, keyword="", venue_id=None)\<close> with the table entry
  \<^verbatim>\<open>venue_id -> venueId\<close> (the example of the comment at line 61): \<^verbatim>\<open>size\<close> and
  \<^verbatim>\<open>keyword\<close> are kept, nothing is bound to \<^verbatim>\<open>None\<close>.
\<close>

theorem search_params_no_none_keeps_falsy_witness:
  "\<exists>R. search_params [(''venue_id'', ''venueId'')]
          [''size'' \<mapsto> PInt 0, ''keyword'' \<mapsto> PStr [], ''venue_id'' \<mapsto> PNone] = Inr R \<and>
      R ''size'' = Some (PInt 0) \<and> R ''keyword'' = Some (PStr []) \<and>
      R ''venue_id'' \<noteq> Some PNone \<and> R ''venueId'' \<noteq> Some PNone"
proof -
  let ?T = "[(''venue_id'', ''venueId'')]"
  let ?P = "[''size'' \<mapsto> PInt 0, ''keyword'' \<mapsto> PStr [], ''venue_id'' \<mapsto> PNone] :: 'a kwargs"
  have "\<exists>R. search_params ?T ?P = Inr R \<and> (\<forall>k. R k \<noteq> Some PNone) \<and>
     (\<forall>k v. ?P k = Some v \<and> v \<noteq> PNone \<and> k \<notin> semantic_keys ?T \<and>
        (\<forall>(j, w) \<in> set (renaming ?T). w = k \<longrightarrow> ?P j = None \<and> j \<notin> wire_keys ?T)
        \<longrightarrow> R k = Some v)"
    by (rule search_params_no_none_keeps_falsy)
  then obtain R where R: "search_params ?T ?P = Inr R" and nn: "\<forall>k. R k \<noteq> Some PNone"
    and keep: "\<forall>k v. ?P k = Some v \<and> v \<noteq> PNone \<and> k \<notin> semantic_keys ?T \<and>
        (\<forall>(j, w) \<in> set (renaming ?T). w = k \<longrightarrow> ?P j = None \<and> j \<notin> wire_keys ?T)
        \<longrightarrow> R k = Some v"
    by (elim exE conjE)
  have a: "R ''size'' = Some (PInt 0)"
    by (rule keep [rule_format]) (simp add: semantic_keys_def wire_keys_def renaming_def)
  have b: "R ''keyword'' = Some (PStr [])"
    by (rule keep [rule_format]) (simp add: semantic_keys_def wire_keys_def renaming_def)
  from nn have c: "R ''venue_id'' \<noteq> Some PNone" by (rule spec)
  from nn have d: "R ''venueId'' \<noteq> Some PNone" by (rule spec)
  from R a b c d show ?thesis by (intro exI [of _ R] conjI)
qed

text \<open>
  C2 as stated fails: in \<^verbatim>\<open>_search_params(venue_id="v", venueId=0)\<close> the key
  \<^verbatim>\<open>venueId\<close> holds the falsy value \<^verbatim>\<open>0\<close> and is not renamed away, yet the rename of
  \<^verbatim>\<open>venue_id\<close> overwrites it (line 64).
\<close>

theorem falsy_overwritten_counterexample:
  "search_params [(''venue_id'', ''venueId'')]
     [''venue_id'' \<mapsto> PStr ''v'', ''venueId'' \<mapsto> PInt 0] = Inr [''venueId'' \<mapsto> PStr ''v'']"
  by (simp add: search_params_eq drop_none_def fun_eq_iff)

text \<open>
  Claim C3 (amended). Let the table have distinct keys and be chain free, and let it
  hold an entry \<open>K \<rightarrow> W\<close> with \<open>K \<noteq> W\<close>. For every \<open>P\<close> that binds \<open>K\<close> to a value other
  than \<^verbatim>\<open>None\<close>, and in which no other key that renames to \<open>W\<close> is present, the result
  has no \<open>K\<close> and binds \<open>W\<close> to the value \<open>P\<close> had at \<open>K\<close>.
\<close>

theorem rename_moves_value:
  assumes "distinct (map fst T)" and "chain_free T"
    and "(K, W) \<in> set T" and "K \<noteq> W" and "P K = Some v" and "v \<noteq> PNone"
    and "\<forall>(J, W') \<in> set T. W' = W \<and> J \<noteq> K \<and> J \<noteq> W \<longrightarrow> P J = None"
  shows "\<exists>R. search_params T P = Inr R \<and> R K = None \<and> R W = Some v"
proof -
  from split_list [OF assms(3)] obtain xs ys where T: "T = xs @ (K, W) # ys" by blast
  have Kys: "K \<notin> fst ` set ys" using assms(1) unfolding T by simp
  have later: "\<forall>(J, W') \<in> set ys. W' = W \<and> J \<noteq> W \<longrightarrow> P J = None"
  proof (intro ballI, clarify)
    fix J W' assume in_ys: "(J, W) \<in> set ys" and JW: "J \<noteq> W"
    from in_ys Kys have "J \<noteq> K" by (metis fst_conv image_eqI)
    moreover from in_ys have "(J, W) \<in> set T" unfolding T by simp
    ultimately show "P J = None" using assms(7) JW by blast
  qed
  from last_wins [OF T assms(1,2,4,5) later]
  have "renamed T P W = Some v" and "renamed T P K = None" .
  then show ?thesis using assms(6)
    by (simp add: search_params_eq drop_none_Some drop_none_None)
qed

theorem rename_moves_value_witness:
  "\<exists>R. search_params [(''venue_id'', ''venueId''), (''state_code'', ''stateCode''), (''id'', ''id'')]
         [''venue_id'' \<mapsto> PStr ''KovZpZA7AAEA'', ''id'' \<mapsto> PNone, ''venueId'' \<mapsto> PInt 7] = Inr R \<and>
       R ''venue_id'' = None \<and> R ''venueId'' = Some (PStr ''KovZpZA7AAEA'')"
  by (rule rename_moves_value)
    (simp_all add: chain_free_def semantic_keys_def wire_keys_def renaming_def)

text \<open>
  C3 as stated fails when the value at \<open>K\<close> is \<^verbatim>\<open>None\<close>, which is what every
  \<^verbatim>\<open>find\<close> passes for an omitted filter: \<^verbatim>\<open>_search_params(venue_id=None)\<close> is the
  empty mapping, and \<^verbatim>\<open>venueId\<close> is not in it.
\<close>

theorem rename_none_counterexample:
  "search_params [(''venue_id'', ''venueId'')] [''venue_id'' \<mapsto> PNone] = Inr Map.empty"
  by (simp add: search_params_eq drop_none_def fun_eq_iff)

text \<open>
  Claim C4 (amended). Let the table have distinct keys and be chain free, and let two
  distinct semantic keys \<open>K1\<close> and \<open>K2\<close>, both present in \<open>P\<close>, rename to the same wire
  key \<open>W\<close>, the entry of \<open>K2\<close> being the last entry in iteration order whose semantic key
  is present. Normalization raises no error; the result binds \<open>W\<close> to the value of \<open>K2\<close>
  when that value is not \<^verbatim>\<open>None\<close>, and has no \<open>W\<close> when it is \<^verbatim>\<open>None\<close>.
\<close>

theorem collision_last_wins:
  assumes "distinct (map fst T)" and "chain_free T"
    and "T = xs @ (K2, W) # ys" and "(K1, W) \<in> set xs"
    and "K1 \<noteq> W" and "K2 \<noteq> W" and "P K1 \<noteq> None" and "P K2 = Some v"
    and "\<forall>(J, W') \<in> set ys. W' = W \<and> J \<noteq> W \<longrightarrow> P J = None"
  shows "\<exists>R. search_params T P = Inr R \<and> R W = (if v = PNone then None else Some v)"
proof -
  from last_wins [OF assms(3,1,2,6,8,9)]
  have "renamed T P W = Some v" by simp
  then show ?thesis
    by (simp add: search_params_eq drop_none_def)
qed

theorem collision_last_wins_witness:
  "\<exists>R. search_params [(''venue_id'', ''id''), (''event_id'', ''id'')]
         [''venue_id'' \<mapsto> PStr ''v1'', ''event_id'' \<mapsto> PStr ''e2''] = Inr R \<and>
       R ''id'' = Some (PStr ''e2'')"
proof -
  let ?T = "[(''venue_id'', ''id''), (''event_id'', ''id'')]"
  let ?P = "[''venue_id'' \<mapsto> PStr ''v1'', ''event_id'' \<mapsto> PStr ''e2''] :: 'a kwargs"
  have 1: "distinct (map fst ?T)" by simp
  have 2: "chain_free ?T" by (simp add: chain_free_def semantic_keys_def wire_keys_def renaming_def)
  have 3: "?T = [(''venue_id'', ''id'')] @ (''event_id'', ''id'') # []" by simp
  have 4: "(''venue_id'', ''id'') \<in> set [(''venue_id'', ''id'')]" by simp
  have 5: "''venue_id'' \<noteq> ''id''" and 6: "''event_id'' \<noteq> ''id''" by simp_all
  have 7: "?P ''venue_id'' \<noteq> None" and 8: "?P ''event_id'' = Some (PStr ''e2'')" by simp_all
  have 9: "\<forall>(J, W') \<in> set []. W' = ''id'' \<and> J \<noteq> ''id'' \<longrightarrow> ?P J = None" by simp
  have "\<exists>R. search_params ?T ?P = Inr R \<and>
      R ''id'' = (if PStr ''e2'' = (PNone :: 'a pyval) then None else Some (PStr ''e2''))"
    using 1 2 3 4 5 6 7 8 9 by (rule collision_last_wins [where P = "?P"])
  then show ?thesis by simp
qed

text \<open>
  C4 as stated fails when the value applied last is \<^verbatim>\<open>None\<close>: with both
  \<^verbatim>\<open>venue_id\<close> and \<^verbatim>\<open>event_id\<close> renaming to \<^verbatim>\<open>id\<close>,
  \<^verbatim>\<open>_search_params(venue_id="v1", event_id=None)\<close> is the empty mapping: the result
  binds \<^verbatim>\<open>id\<close> to nothing, and the value \<^verbatim>\<open>"v1"\<close> is lost.
\<close>

theorem collision_none_counterexample:
  "search_params [(''venue_id'', ''id''), (''event_id'', ''id'')]
     [''venue_id'' \<mapsto> PStr ''v1'', ''event_id'' \<mapsto> PNone] = Inr Map.empty"
  by (simp add: search_params_eq drop_none_def fun_eq_iff)

text \<open>
  Claim C7. For every parameter mapping \<open>P\<close> that contains no key with a renaming table
  entry and no key bound to \<^verbatim>\<open>None\<close>, normalization returns \<open>P\<close> itself.
\<close>

theorem search_params_idempotent:
  assumes "\<forall>K \<in> dom P. K \<notin> semantic_keys T" and "\<forall>k. P k \<noteq> Some PNone"
  shows "search_params T P = Inr P"
proof -
  from assms(1) have "\<forall>k \<in> semantic_keys T. P k = None" by (auto simp: dom_def)
  then have "renamed T P = P" by (rule renamed_id)
  with assms(2) show ?thesis by (simp add: search_params_eq drop_none_id)
qed

theorem search_params_idempotent_witness:
  "search_params [(''venue_id'', ''venueId''), (''id'', ''id'')]
     [''venueId'' \<mapsto> PStr ''v'', ''id'' \<mapsto> PStr ''abc123'', ''size'' \<mapsto> PInt 0] =
   Inr [''venueId'' \<mapsto> PStr ''v'', ''id'' \<mapsto> PStr ''abc123'', ''size'' \<mapsto> PInt 0]"
  by (rule search_params_idempotent)
    (auto simp: semantic_keys_def renaming_def split: if_splits)

text \<open>
  Claim C9 (amended). For every parameter mapping \<open>P\<close> and every key \<open>K\<close> of \<open>P\<close> that has
  no table entry and a value other than \<^verbatim>\<open>None\<close>, normalization raises no error and
  passes \<open>K\<close> through with its value, provided no key that the table renames onto \<open>K\<close>
  is present in \<open>P\<close> or is itself a wire key.
\<close>

theorem unknown_key_passes_through:
  assumes "K \<notin> fst ` set T" and "P K = Some v" and "v \<noteq> PNone"
    and "\<forall>(J, W) \<in> set (renaming T). W = K \<longrightarrow> P J = None \<and> J \<notin> wire_keys T"
  shows "\<exists>R. search_params T P = Inr R \<and> R K = Some v"
proof -
  from assms(1) have "K \<notin> semantic_keys T" by (auto simp: semantic_keys_def renaming_def)
  from frame [OF this assms(4)] have "renamed T P K = P K" .
  with assms(2,3) show ?thesis by (simp add: search_params_eq drop_none_Some)
qed

theorem unknown_key_passes_through_witness:
  "\<exists>R. search_params [(''venue_id'', ''venueId'')]
         [''venue_id'' \<mapsto> PStr ''v'', ''marketId'' \<mapsto> PStr ''10''] = Inr R \<and>
       R ''marketId'' = Some (PStr ''10'')"
  by (rule unknown_key_passes_through)
    (simp_all add: semantic_keys_def wire_keys_def renaming_def)

text \<open>
  C9 as stated fails: \<^verbatim>\<open>venueId\<close> has no table entry (it is no key of the table), and
  \<^verbatim>\<open>_search_params(venue_id="v1", venueId="v2")\<close> does not pass it through with its
  value \<^verbatim>\<open>"v2"\<close>.
\<close>

theorem unknown_key_overwritten_counterexample:
  "search_params [(''venue_id'', ''venueId'')]
     [''venue_id'' \<mapsto> PStr ''v1'', ''venueId'' \<mapsto> PStr ''v2''] = Inr [''venueId'' \<mapsto> PStr ''v1'']"
  by (simp add: search_params_eq drop_none_def fun_eq_iff)

section \<open>Facts about argument passing\<close>

lemma search_args_id: "search_args kw ''id'' = Some (arg kw ''entity_id'' PNone)"
  by (simp add: search_args_def)

lemma search_args_entity_id: "search_args kw ''entity_id'' = None"
  by (simp add: search_args_def rest_def get_parameters_def)

lemma search_args_self: "kw ''self'' = None \<Longrightarrow> search_args kw ''self'' = None"
  by (simp add: search_args_def rest_def get_parameters_def)



lemma call_args_ok:
  "\<forall>n \<in> set (map fst explicit). kwargs n = None \<Longrightarrow>
   call_args explicit kwargs = Inr (kwargs ++ map_of explicit)"
  by (auto simp: call_args_def)

lemma AttractionQuery_find_get:
  assumes "kw ''self'' = None" and "kw ''entity_id'' = None"
  shows "AttractionQuery_find api T kw w =
    get api T AttractionQuery
      (rest (parameters AttractionQuery) kw ++
       map_of [(''keyword'', arg kw ''keyword'' PNone),
              (''entity_id'', arg kw ''attraction_id'' PNone),
              (''sort'', arg kw ''sort'' PNone),
              (''include_test'', arg kw ''include_test'' PNone),
              (''page'', arg kw ''page'' PNone),
              (''size'', arg kw ''size'' PNone),
              (''locale'', arg kw ''locale'' PNone),
              (''source'', arg kw ''source'' PNone)]) w"
  unfolding AttractionQuery_find_def
  by (subst call_args_ok) (simp_all add: assms rest_def)

lemma ClassificationQuery_find_get:
  assumes "kw ''self'' = None" and "kw ''entity_id'' = None"
  shows "ClassificationQuery_find api T kw w =
    get api T ClassificationQuery
      (rest (parameters ClassificationQuery) kw ++
       map_of [(''keyword'', arg kw ''keyword'' PNone),
              (''entity_id'', arg kw ''classification_id'' PNone),
              (''sort'', arg kw ''sort'' PNone),
              (''include_test'', arg kw ''include_test'' PNone),
              (''page'', arg kw ''page'' PNone),
              (''size'', arg kw ''size'' PNone),
              (''locale'', arg kw ''locale'' PNone),
              (''source'', arg kw ''source'' PNone)]) w"
  unfolding ClassificationQuery_find_def
  by (subst call_args_ok) (simp_all add: assms rest_def)

lemma VenueQuery_find_get:
  assumes "kw ''self'' = None" and "kw ''entity_id'' = None"
  shows "VenueQuery_find api T kw w =
    get api T VenueQuery
      (rest (parameters VenueQuery) kw ++
       map_of [(''keyword'', arg kw ''keyword'' PNone),
              (''entity_id'', arg kw ''venue_id'' PNone),
              (''sort'', arg kw ''sort'' PNone),
              (''include_test'', arg kw ''include_test'' PNone),
              (''page'', arg kw ''page'' PNone),
              (''size'', arg kw ''size'' PNone),
              (''locale'', arg kw ''locale'' PNone),
              (''state_code'', arg kw ''state_code'' PNone),
              (''country_code'', arg kw ''country_code'' PNone),
              (''source'', arg kw ''source'' PNone)]) w"
  unfolding VenueQuery_find_def
  by (subst call_args_ok) (simp_all add: assms rest_def)

lemma EventQuery_find_get:
  assumes "kw ''self'' = None" and "kw ''entity_id'' = None"
  shows "EventQuery_find api T kw w =
    get api T EventQuery
      (rest (parameters EventQuery) kw ++
       map_of ([(''keyword'', arg kw ''keyword'' PNone),
               (''entity_id'', arg kw ''event_id'' PNone),
               (''sort'', arg kw ''sort'' (PStr ''date,asc'')),
               (''include_test'', arg kw ''include_test'' PNone),
               (''page'', arg kw ''page'' PNone),
               (''size'', arg kw ''size'' PNone),
               (''locale'', arg kw ''locale'' PNone)] @
              pass kw
               [''latlong'', ''radius'', ''unit'', ''start_date_time'', ''end_date_time'',
                ''onsale_start_date_time'', ''onsale_end_date_time'', ''country_code'',
                ''state_code'', ''venue_id'', ''attraction_id'', ''segment_id'',
                ''segment_name'', ''classification_name'', ''classification_id'',
                ''market_id'', ''promoter_id'', ''dma_id'', ''include_tba'', ''include_tbd'',
                ''source'', ''client_visibility''])) w"
  unfolding EventQuery_find_def
  by (subst call_args_ok) (simp_all add: assms rest_def pass_def)


lemma map_of_pass: "map_of (pass kw names) n = (if n \<in> set names then Some (arg kw n PNone) else None)"
  by (induction names) (auto simp: pass_def)

section \<open>Claims about the shared request assembly\<close>

text \<open>
  Claim C1. For every call of \<^verbatim>\<open>_get\<close> with \<^verbatim>\<open>entity_id="abc123"\<close> on the events
  query, the parameter mapping handed to the client's search holds the wire key
  \<^verbatim>\<open>id\<close> with value \<^verbatim>\<open>"abc123"\<close> and no key \<^verbatim>\<open>entity_id\<close>. The table
  \<^verbatim>\<open>attr_map\<close> is a parameter: the statement is for every table that has no renaming
  entry from \<^verbatim>\<open>id\<close> and none onto \<^verbatim>\<open>id\<close>, \<^verbatim>\<open>entity_id\<close> or \<^verbatim>\<open>self\<close>.
\<close>

theorem get_forwards_entity_id_as_id:
  assumes "kw ''entity_id'' = Some (PStr ''abc123'')" and "kw ''self'' = None"
    and "''id'' \<notin> semantic_keys T" and "''id'' \<notin> wire_keys T"
    and "''entity_id'' \<notin> wire_keys T" and "''self'' \<notin> wire_keys T"
  shows "\<exists>params. search_params T (search_args kw) = Inr params \<and>
           get api T EventQuery kw w = api_search api ''events'' params w \<and>
           params ''id'' = Some (PStr ''abc123'') \<and> params ''entity_id'' = None"
proof -
  let ?sa = "search_args kw"
  let ?params = "drop_none (renamed T ?sa)"
  have sp: "search_params T ?sa = Inr ?params" by (rule search_params_eq)
  have "\<forall>(j, v) \<in> set (renaming T). v = ''id'' \<longrightarrow> ?sa j = None \<and> j \<notin> wire_keys T"
    using assms(4) by (auto simp: in_renaming dest: wire_keysI)
  with assms(3) have "renamed T ?sa ''id'' = ?sa ''id''" by (rule frame)
  then have id: "?params ''id'' = Some (PStr ''abc123'')"
    using assms(1) by (simp add: search_args_id arg_def drop_none_Some)
  have "renamed T ?sa ''entity_id'' = None"
    using search_args_entity_id assms(5) by (rule absent_stays)
  then have eid: "?params ''entity_id'' = None" by (rule drop_none_None)
  have "?sa ''self'' = None" using assms(2) by (rule search_args_self)
  then have "renamed T ?sa ''self'' = None" using assms(6) by (rule absent_stays)
  then have "?params ''self'' = None" by (rule drop_none_None)
  then have "get api T EventQuery kw w = api_search api ''events'' ?params w"
    using assms(2) by (simp add: get_def sp BaseQuery_get_def)
  with sp id eid show ?thesis by blast
qed

theorem get_forwards_entity_id_as_id_witness:
  "\<exists>params.
     get recording_client [(''venue_id'', ''venueId''), (''id'', ''id'')] EventQuery
       [''entity_id'' \<mapsto> PStr ''abc123'', ''venue_id'' \<mapsto> PStr ''v1''] [] =
       (Inr (), [Search ''events'' params]) \<and>
     params ''id'' = Some (PStr ''abc123'') \<and> params ''entity_id'' = None"
proof -
  let ?T = "[(''venue_id'', ''venueId''), (''id'', ''id'')]"
  let ?kw = "[''entity_id'' \<mapsto> PStr ''abc123'', ''venue_id'' \<mapsto> PStr ''v1''] :: 'a kwargs"
  have 1: "?kw ''entity_id'' = Some (PStr ''abc123'')" and 2: "?kw ''self'' = None"
    by simp_all
  have 3: "''id'' \<notin> semantic_keys ?T" and 4: "''id'' \<notin> wire_keys ?T"
    and 5: "''entity_id'' \<notin> wire_keys ?T" and 6: "''self'' \<notin> wire_keys ?T"
    by (simp_all add: semantic_keys_def wire_keys_def renaming_def)
  from get_forwards_entity_id_as_id [OF 1 2 3 4 5 6, of recording_client "[]"]
  obtain params where "get recording_client ?T EventQuery ?kw [] =
        api_search recording_client ''events'' params []"
    and "params ''id'' = Some (PStr ''abc123'')" and "params ''entity_id'' = None"
    by (elim exE conjE)
  then show ?thesis by (intro exI [of _ params]) (simp add: recording_client_def)
qed



section \<open>Facts about the \<^verbatim>\<open>find\<close> methods\<close>

lemma fst_pass: "map fst (pass kw names) = names"
  by (induction names) (auto simp: pass_def)

lemma rest_notin: "k \<notin> set names \<Longrightarrow> rest names kw k = kw k"
  by (simp add: rest_def)

lemma rest_in: "k \<in> set names \<Longrightarrow> rest names kw k = None"
  by (simp add: rest_def)

lemma add_notin: "k \<notin> set (map fst L) \<Longrightarrow> (m ++ map_of L) k = m k"
  by (simp add: map_add_def map_of_eq_None_iff [THEN iffD2])

lemma add_in: "map_of L k = Some v \<Longrightarrow> (m ++ map_of L) k = Some v"
  by (simp add: map_add_def)

lemma add_none: "map_of L k = None \<Longrightarrow> (m ++ map_of L) k = m k"
  by (simp add: map_add_def)

text \<open>What an argument list built from the named parameters \<open>ps\<close> forwards.\<close>

lemma forwarded:
  fixes kw :: "'f kwargs"
  assumes names: "set (map fst L) \<subseteq> insert ''entity_id'' (set ps)"
    and each: "list_all (\<lambda>n. n = idp \<or> n = ''sort'' \<or> map_of L n = Some (arg kw n PNone)) ps"
    and eid: "map_of L ''entity_id'' = Some (arg kw idp PNone)"
    and srt: "map_of L ''sort'' = Some (arg kw ''sort'' sd)"
    and idp: "map_of L idp = None" "idp \<in> set ps"
  shows "(rest ps kw ++ map_of L) ''entity_id'' = Some (arg kw idp PNone) \<and>
      (rest ps kw ++ map_of L) ''sort'' = Some (arg kw ''sort'' sd) \<and>
      (\<forall>n. n \<in> set ps \<and> n \<noteq> idp \<and> n \<noteq> ''sort'' \<longrightarrow>
         (rest ps kw ++ map_of L) n = Some (arg kw n PNone)) \<and>
      (rest ps kw ++ map_of L) idp = None \<and>
      (\<forall>k. k \<notin> set ps \<and> k \<noteq> ''entity_id'' \<longrightarrow> (rest ps kw ++ map_of L) k = kw k)"
proof (intro conjI allI impI)
  show "(rest ps kw ++ map_of L) ''entity_id'' = Some (arg kw idp PNone)"
    using eid by (rule add_in)
  show "(rest ps kw ++ map_of L) ''sort'' = Some (arg kw ''sort'' sd)"
    using srt by (rule add_in)
  show "(rest ps kw ++ map_of L) idp = None"
    using idp by (simp add: add_none rest_in)
next
  fix n assume "n \<in> set ps \<and> n \<noteq> idp \<and> n \<noteq> ''sort''"
  with each have "map_of L n = Some (arg kw n PNone)" by (auto simp: list_all_iff)
  then show "(rest ps kw ++ map_of L) n = Some (arg kw n PNone)" by (rule add_in)
next
  fix k assume k: "k \<notin> set ps \<and> k \<noteq> ''entity_id''"
  with names have "k \<notin> set (map fst L)" by blast
  then have "(rest ps kw ++ map_of L) k = rest ps kw k" by (rule add_notin)
  with k show "(rest ps kw ++ map_of L) k = kw k" by (simp add: rest_notin)
qed

lemma Attraction_forwarded:
  fixes kw :: "'f kwargs"
  defines "L \<equiv> [(''keyword'', arg kw ''keyword'' PNone),
              (''entity_id'', arg kw ''attraction_id'' PNone),
              (''sort'', arg kw ''sort'' PNone),
              (''include_test'', arg kw ''include_test'' PNone),
              (''page'', arg kw ''page'' PNone),
              (''size'', arg kw ''size'' PNone),
              (''locale'', arg kw ''locale'' PNone),
              (''source'', arg kw ''source'' PNone)]"
  shows "set (map fst L) \<subseteq> insert ''entity_id'' (set (parameters AttractionQuery))"
    and "list_all (\<lambda>n. n = ''attraction_id'' \<or> n = ''sort'' \<or> map_of L n = Some (arg kw n PNone))
           (parameters AttractionQuery)"
    and "map_of L ''entity_id'' = Some (arg kw ''attraction_id'' PNone)"
    and "map_of L ''sort'' = Some (arg kw ''sort'' PNone)"
    and "map_of L ''attraction_id'' = None"
  by (simp_all add: L_def)

lemma Event_forwarded:
  fixes kw :: "'f kwargs"
  defines "L \<equiv> [(''keyword'', arg kw ''keyword'' PNone),
               (''entity_id'', arg kw ''event_id'' PNone),
               (''sort'', arg kw ''sort'' (PStr ''date,asc'')),
               (''include_test'', arg kw ''include_test'' PNone),
               (''page'', arg kw ''page'' PNone),
               (''size'', arg kw ''size'' PNone),
               (''locale'', arg kw ''locale'' PNone)] @
              pass kw
               [''latlong'', ''radius'', ''unit'', ''start_date_time'', ''end_date_time'',
                ''onsale_start_date_time'', ''onsale_end_date_time'', ''country_code'',
                ''state_code'', ''venue_id'', ''attraction_id'', ''segment_id'',
                ''segment_name'', ''classification_name'', ''classification_id'',
                ''market_id'', ''promoter_id'', ''dma_id'', ''include_tba'', ''include_tbd'',
                ''source'', ''client_visibility'']"
  shows "set (map fst L) \<subseteq> insert ''entity_id'' (set (parameters EventQuery))"
    and "list_all (\<lambda>n. n = ''event_id'' \<or> n = ''sort'' \<or> map_of L n = Some (arg kw n PNone))
           (parameters EventQuery)"
    and "map_of L ''entity_id'' = Some (arg kw ''event_id'' PNone)"
    and "map_of L ''sort'' = Some (arg kw ''sort'' (PStr ''date,asc''))"
    and "map_of L ''event_id'' = None"
  by (simp_all add: L_def fst_pass map_of_append map_of_pass map_add_def)


lemma Classification_forwarded:
  fixes kw :: "'f kwargs"
  defines "L \<equiv> [(''keyword'', arg kw ''keyword'' PNone),
              (''entity_id'', arg kw ''classification_id'' PNone),
              (''sort'', arg kw ''sort'' PNone),
              (''include_test'', arg kw ''include_test'' PNone),
              (''page'', arg kw ''page'' PNone),
              (''size'', arg kw ''size'' PNone),
              (''locale'', arg kw ''locale'' PNone),
              (''source'', arg kw ''source'' PNone)]"
  shows "set (map fst L) \<subseteq> insert ''entity_id'' (set (parameters ClassificationQuery))"
    and "list_all
           (\<lambda>n. n = ''classification_id'' \<or> n = ''sort'' \<or> map_of L n = Some (arg kw n PNone))
           (parameters ClassificationQuery)"
    and "map_of L ''entity_id'' = Some (arg kw ''classification_id'' PNone)"
    and "map_of L ''sort'' = Some (arg kw ''sort'' PNone)"
    and "map_of L ''classification_id'' = None"
  by (simp_all add: L_def)

lemma Venue_forwarded:
  fixes kw :: "'f kwargs"
  defines "L \<equiv> [(''keyword'', arg kw ''keyword'' PNone),
              (''entity_id'', arg kw ''venue_id'' PNone),
              (''sort'', arg kw ''sort'' PNone),
              (''include_test'', arg kw ''include_test'' PNone),
              (''page'', arg kw ''page'' PNone),
              (''size'', arg kw ''size'' PNone),
              (''locale'', arg kw ''locale'' PNone),
              (''state_code'', arg kw ''state_code'' PNone),
              (''country_code'', arg kw ''country_code'' PNone),
              (''source'', arg kw ''source'' PNone)]"
  shows "set (map fst L) \<subseteq> insert ''entity_id'' (set (parameters VenueQuery))"
    and "list_all (\<lambda>n. n = ''venue_id'' \<or> n = ''sort'' \<or> map_of L n = Some (arg kw n PNone))
           (parameters VenueQuery)"
    and "map_of L ''entity_id'' = Some (arg kw ''venue_id'' PNone)"
    and "map_of L ''sort'' = Some (arg kw ''sort'' PNone)"
    and "map_of L ''venue_id'' = None"
  by (simp_all add: L_def)

section \<open>Claims about the query classes\<close>

text \<open>
  Claim C5 (amended). Four of the seven query classes (attractions, classifications,
  events, venues) have a \<^verbatim>\<open>find\<close> with their own named parameters, and it forwards
  into the shared \<^verbatim>\<open>_get\<close>: the identifier parameter of the class as
  \<^verbatim>\<open>entity_id\<close>, \<^verbatim>\<open>sort\<close> with the default of the class, every other named parameter
  under its own name (\<^verbatim>\<open>None\<close> when omitted) and every extra keyword unchanged. The
  classes for segments, genres and subgenres have no \<^verbatim>\<open>find\<close>.
\<close>

theorem find_forwards_to_get:
  assumes "has_find q" and "kw ''self'' = None" and "kw ''entity_id'' = None"
  shows "\<exists>kw'. find_method api T q kw w = get api T q kw' w \<and>
      kw' ''entity_id'' = Some (arg kw (id_parameter q) PNone) \<and>
      kw' ''sort'' = Some (arg kw ''sort'' (sort_default q)) \<and>
      (\<forall>n. n \<in> set (parameters q) \<and> n \<noteq> id_parameter q \<and> n \<noteq> ''sort'' \<longrightarrow>
         kw' n = Some (arg kw n PNone)) \<and>
      kw' (id_parameter q) = None \<and>
      (\<forall>k. k \<notin> set (parameters q) \<and> k \<noteq> ''entity_id'' \<longrightarrow> kw' k = kw k)"
proof -
  from assms(1) consider "q = AttractionQuery" | "q = ClassificationQuery" | "q = EventQuery"
    | "q = VenueQuery" by (auto simp: has_find_def)
  then show ?thesis
  proof cases
    case 1
    have p: "''attraction_id'' \<in> set (parameters AttractionQuery)" by simp
    note f = forwarded [OF Attraction_forwarded p, of kw]
    show ?thesis unfolding 1 find_method.simps AttractionQuery_find_get [OF assms(2,3)]
      id_parameter.simps sort_default.simps
      by (rule exI, rule conjI, rule refl, rule f)
  next
    case 2
    have p: "''classification_id'' \<in> set (parameters ClassificationQuery)" by simp
    note f = forwarded [OF Classification_forwarded p, of kw]
    show ?thesis unfolding 2 find_method.simps ClassificationQuery_find_get [OF assms(2,3)]
      id_parameter.simps sort_default.simps
      by (rule exI, rule conjI, rule refl, rule f)
  next
    case 3
    have p: "''event_id'' \<in> set (parameters EventQuery)" by simp
    note f = forwarded [OF Event_forwarded p, of kw]
    show ?thesis unfolding 3 find_method.simps EventQuery_find_get [OF assms(2,3)]
      id_parameter.simps sort_default.simps
      by (rule exI, rule conjI, rule refl, rule f)
  next
    case 4
    have p: "''venue_id'' \<in> set (parameters VenueQuery)" by simp
    note f = forwarded [OF Venue_forwarded p, of kw]
    show ?thesis unfolding 4 find_method.simps VenueQuery_find_get [OF assms(2,3)]
      id_parameter.simps sort_default.simps
      by (rule exI, rule conjI, rule refl, rule f)
  qed
qed

text \<open>
  C5 as stated fails: \<^verbatim>\<open>SegmentQuery\<close> (like \<^verbatim>\<open>GenreQuery\<close> and \<^verbatim>\<open>SubGenreQuery\<close>)
  exposes no \<^verbatim>\<open>find\<close>; the call raises \<^verbatim>\<open>AttributeError\<close> and no request is made.
\<close>

theorem no_find_counterexample:
  "find_method recording_client [(''venue_id'', ''venueId'')] SegmentQuery
     [''keyword'' \<mapsto> PStr ''rock''] [] = (Inl AttributeError, [])"
  by simp

text \<open>
  At \<^verbatim>\<open>VenueQuery.find(keyword="Fox Theatre", state_code="GA")\<close>: the theorem's
  forwarding, read off at the keys of the call.
\<close>

theorem find_forwards_to_get_witness:
  "has_find VenueQuery \<and>
   (\<exists>kw'. find_method recording_client [(''venue_id'', ''venueId'')] VenueQuery
        [''keyword'' \<mapsto> PStr ''Fox Theatre'', ''state_code'' \<mapsto> PStr ''GA''] [] =
      get recording_client [(''venue_id'', ''venueId'')] VenueQuery kw' [] \<and>
      kw' ''entity_id'' = Some PNone \<and> kw' ''keyword'' = Some (PStr ''Fox Theatre'') \<and>
      kw' ''state_code'' = Some (PStr ''GA'') \<and> kw' ''venue_id'' = None)"
proof -
  let ?T = "[(''venue_id'', ''venueId'')]"
  let ?kw = "[''keyword'' \<mapsto> PStr ''Fox Theatre'', ''state_code'' \<mapsto> PStr ''GA''] :: 'a kwargs"
  have 1: "has_find VenueQuery" by (simp add: has_find_def)
  have 2: "?kw ''self'' = None" and 3: "?kw ''entity_id'' = None" by simp_all
  from find_forwards_to_get [OF 1 2 3, of recording_client ?T "[]"]
  obtain kw' where a: "find_method recording_client ?T VenueQuery ?kw [] =
        get recording_client ?T VenueQuery kw' []"
    and b: "kw' ''entity_id'' = Some (arg ?kw (id_parameter VenueQuery) PNone)"
    and c: "\<forall>n. n \<in> set (parameters VenueQuery) \<and> n \<noteq> id_parameter VenueQuery \<and> n \<noteq> ''sort'' \<longrightarrow>
         kw' n = Some (arg ?kw n PNone)"
    and d: "kw' (id_parameter VenueQuery) = None"
    by (elim exE conjE)
  from b have b': "kw' ''entity_id'' = Some PNone" by (simp add: arg_def)
  have "kw' ''keyword'' = Some (arg ?kw ''keyword'' PNone)"
    by (rule c [rule_format]) simp
  then have c1: "kw' ''keyword'' = Some (PStr ''Fox Theatre'')" by (simp add: arg_def)
  have "kw' ''state_code'' = Some (arg ?kw ''state_code'' PNone)"
    by (rule c [rule_format]) simp
  then have c2: "kw' ''state_code'' = Some (PStr ''GA'')" by (simp add: arg_def)
  from d have d': "kw' ''venue_id'' = None" by simp
  from 1 a b' c1 c2 d' show ?thesis by (intro conjI exI [of _ kw'])
qed

text \<open>
  Claim C6. For every query class \<open>q\<close> and every identifier string \<open>s\<close>,
  \<^verbatim>\<open>by_id(s)\<close> calls the client's fetch-by-id with the resource path of \<open>q\<close> and
  \<open>s\<close>; when the client returns a JSON object the result is \<^verbatim>\<open>from_json\<close> of the
  model class of \<open>q\<close> applied to that very object, and when the client raises, the
  exception is the result. The resource path and model class of each of the seven
  classes are those of the list.
\<close>

theorem by_id_fetches_then_builds:
  "(api_get_id api (resource q) (PStr s) w = (Inr resp, w') \<longrightarrow>
      by_id api from_json q (PStr s) w = (from_json (model q) resp, w')) \<and>
   (api_get_id api (resource q) (PStr s) w = (Inl e, w') \<longrightarrow>
      by_id api from_json q (PStr s) w = (Inl e, w')) \<and>
   (resource q, model q) \<in> set
      [(''attractions'', Attraction), (''classifications'', Classification),
       (''classifications/segments'', Segment), (''classifications/genres'', Genre),
       (''classifications/subgenres'', Subgenre), (''events'', Event), (''venues'', Venue)]"
proof (intro conjI impI)
  assume "api_get_id api (resource q) (PStr s) w = (Inr resp, w')"
  then show "by_id api from_json q (PStr s) w = (from_json (model q) resp, w')"
    by (simp add: by_id_def)
next
  assume "api_get_id api (resource q) (PStr s) w = (Inl e, w')"
  then show "by_id api from_json q (PStr s) w = (Inl e, w')"
    by (simp add: by_id_def)
next
  show "(resource q, model q) \<in> set
      [(''attractions'', Attraction), (''classifications'', Classification),
       (''classifications/segments'', Segment), (''classifications/genres'', Genre),
       (''classifications/subgenres'', Subgenre), (''events'', Event), (''venues'', Venue)]"
    by (cases q) simp_all
qed

theorem by_id_fetches_then_builds_witness:
  "by_id recording_client (\<lambda>m resp. Inr (m, resp)) EventQuery (PStr ''evt-1'') [] =
     (Inr (Event, ''{}''), [Get_id ''events'' (PStr ''evt-1'')])"
proof -
  have h: "api_get_id recording_client (resource EventQuery) (PStr ''evt-1'') [] =
      (Inr ''{}'', [Get_id ''events'' (PStr ''evt-1'')])"
    by (simp add: recording_client_def)
  note t = by_id_fetches_then_builds [where api = recording_client and q = EventQuery
      and s = "''evt-1''" and w = "[]" and resp = "''{}''"
      and w' = "[Get_id ''events'' (PStr ''evt-1'')]" and from_json = "\<lambda>m resp. Inr (m, resp)"]
  from t [THEN conjunct1, THEN mp, OF h] show ?thesis by simp
qed

lemma str_int_5: "str_int 5 = ''5''"
  by (simp add: str_int_def)

text \<open>
  Claim C8. \<^verbatim>\<open>by_location\<close> on the events query with latitude \<^verbatim>\<open>33.7\<close>, longitude
  \<^verbatim>\<open>-84.4\<close> and radius \<^verbatim>\<open>5\<close> calls \<^verbatim>\<open>find\<close> with \<^verbatim>\<open>latlong="33.7,-84.4"\<close> and
  \<^verbatim>\<open>radius="5"\<close>, both strings, with \<^verbatim>\<open>unit\<close> and \<^verbatim>\<open>sort\<close> (defaults
  \<^verbatim>\<open>'miles'\<close> and \<^verbatim>\<open>'relevance,desc'\<close>) and with every extra keyword unchanged. The
  float \<^verbatim>\<open>33.7\<close> is the float whose \<^verbatim>\<open>repr\<close> is \<^verbatim>\<open>33.7\<close>, likewise \<^verbatim>\<open>-84.4\<close>; the
  text of the int \<^verbatim>\<open>5\<close> is computed by \<open>str_int\<close>.
\<close>

theorem by_location_formats_coordinates:
  assumes "kw ''latitude'' = Some (PFloat lat)" and "kw ''longitude'' = Some (PFloat lng)"
    and "kw ''radius'' = Some (PInt 5)"
    and "float_repr lat = ''33.7''" and "float_repr lng = ''-84.4''"
    and "kw ''self'' = None" and "kw ''latlong'' = None"
  shows "\<exists>kw'. by_location float_repr api T kw w = find_method api T EventQuery kw' w \<and>
      kw' ''latlong'' = Some (PStr ''33.7,-84.4'') \<and>
      kw' ''radius'' = Some (PStr ''5'') \<and>
      kw' ''unit'' = Some (arg kw ''unit'' (PStr ''miles'')) \<and>
      kw' ''sort'' = Some (arg kw ''sort'' (PStr ''relevance,desc'')) \<and>
      kw' ''latitude'' = None \<and> kw' ''longitude'' = None \<and>
      (\<forall>k. k \<notin> {''latitude'', ''longitude'', ''radius'', ''unit'', ''sort'', ''latlong''} \<longrightarrow>
         kw' k = kw k)"
proof -
  let ?ps = "[''latitude'', ''longitude'', ''radius'', ''unit'', ''sort'']"
  let ?L = "[(''latlong'', PStr ''33.7,-84.4''),
             (''radius'', PStr ''5''),
             (''unit'', arg kw ''unit'' (PStr ''miles'')),
             (''sort'', arg kw ''sort'' (PStr ''relevance,desc''))]"
  let ?kw' = "rest ?ps kw ++ map_of ?L"
  have "\<forall>n \<in> set (map fst ?L). rest ?ps kw n = None"
    using assms(7) by (simp add: rest_def)
  then have ca: "call_args ?L (rest ?ps kw) = Inr ?kw'" by (rule call_args_ok)
  have "by_location float_repr api T kw w = find_method api T EventQuery ?kw' w"
    using assms(1-6) ca by (simp add: by_location_def arg_def str_int_5)
  moreover have "?kw' ''latlong'' = Some (PStr ''33.7,-84.4'')" by simp
  moreover have "?kw' ''radius'' = Some (PStr ''5'')" by simp
  moreover have "?kw' ''unit'' = Some (arg kw ''unit'' (PStr ''miles''))" by simp
  moreover have "?kw' ''sort'' = Some (arg kw ''sort'' (PStr ''relevance,desc''))" by simp
  moreover have "?kw' ''latitude'' = None" by (simp add: rest_def)
  moreover have "?kw' ''longitude'' = None" by (simp add: rest_def)
  moreover have "\<forall>k. k \<notin> {''latitude'', ''longitude'', ''radius'', ''unit'', ''sort'', ''latlong''}
      \<longrightarrow> ?kw' k = kw k"
    by (simp add: rest_def map_add_def)
  ultimately show ?thesis by (intro exI [of _ ?kw'] conjI)
qed

text \<open>A float standing for its own \<^verbatim>\<open>repr\<close>, and no extra keyword.\<close>

theorem by_location_formats_coordinates_witness:
  "\<exists>kw'. by_location (\<lambda>x. x) recording_client [(''venue_id'', ''venueId'')]
        [''latitude'' \<mapsto> PFloat ''33.7'', ''longitude'' \<mapsto> PFloat ''-84.4'',
         ''radius'' \<mapsto> PInt 5] [] =
      find_method recording_client [(''venue_id'', ''venueId'')] EventQuery kw' [] \<and>
      kw' ''latlong'' = Some (PStr ''33.7,-84.4'') \<and> kw' ''radius'' = Some (PStr ''5'') \<and>
      kw' ''unit'' = Some (PStr ''miles'') \<and> kw' ''sort'' = Some (PStr ''relevance,desc'')"
proof -
  let ?T = "[(''venue_id'', ''venueId'')]"
  let ?kw = "[''latitude'' \<mapsto> PFloat ''33.7'', ''longitude'' \<mapsto> PFloat ''-84.4'',
         ''radius'' \<mapsto> PInt 5] :: string kwargs"
  have 1: "?kw ''latitude'' = Some (PFloat ''33.7'')"
    and 2: "?kw ''longitude'' = Some (PFloat ''-84.4'')"
    and 3: "?kw ''radius'' = Some (PInt 5)"
    and 4: "(\<lambda>x. x) ''33.7'' = ''33.7''" and 5: "(\<lambda>x. x) ''-84.4'' = ''-84.4''"
    and 6: "?kw ''self'' = None" and 7: "?kw ''latlong'' = None"
    by simp_all
  from by_location_formats_coordinates [OF 1 2 3 4 5 6 7, of recording_client ?T "[]"]
  obtain kw' where a: "by_location (\<lambda>x. x) recording_client ?T ?kw [] =
        find_method recording_client ?T EventQuery kw' []"
    and b: "kw' ''latlong'' = Some (PStr ''33.7,-84.4'')"
    and c: "kw' ''radius'' = Some (PStr ''5'')"
    and d: "kw' ''unit'' = Some (arg ?kw ''unit'' (PStr ''miles''))"
    and e: "kw' ''sort'' = Some (arg ?kw ''sort'' (PStr ''relevance,desc''))"
    by (elim exE conjE)
  from d have d': "kw' ''unit'' = Some (PStr ''miles'')" by (simp add: arg_def)
  from e have e': "kw' ''sort'' = Some (PStr ''relevance,desc'')" by (simp add: arg_def)
  from a b c d' e' show ?thesis by (intro exI [of _ kw'] conjI)
qed

end
